theory Spec2Isabelle
  imports Main "HOL-Library.Word" "HOL-Library.Signed_Division"
begin

section \<open>Go runtime: integers, decimal printing, float64 conversion\<close>

text \<open>
  Go's \<^verbatim>\<open>int64\<close> is a 64-bit two's complement word. Arithmetic inside \<^verbatim>\<open>formatBytes\<close>
  is carried out on the signed value (\<open>sint\<close>), with the wrap-around of \<^verbatim>\<open>div *= unit\<close>
  written out by \<open>wrap64\<close>. Go's \<^verbatim>\<open>/\<close> on integers truncates towards zero; this is
  \<open>sdiv\<close> on \<open>int\<close>.
\<close>

type_synonym int64 = "64 word"

definition wrap64 :: "int \<Rightarrow> int" where
  "wrap64 k = (k + 2 ^ 63) mod 2 ^ 64 - 2 ^ 63"

text \<open>The decimal digits of \<^verbatim>\<open>%d\<close>.\<close>

definition digit_char :: "nat \<Rightarrow> char" where
  "digit_char d = ''0123456789'' ! d"

fun dec_nat :: "nat \<Rightarrow> string" where
  "dec_nat n = (if n < 10 then [digit_char n] else dec_nat (n div 10) @ [digit_char (n mod 10)])"

declare dec_nat.simps [simp del]

definition fmt_d :: "int \<Rightarrow> string" where
  "fmt_d k = (if k < 0 then ''-'' @ dec_nat (nat (- k)) else dec_nat (nat k))"

text \<open>
  Rounding the quotient \<open>a / d\<close> (with \<open>0 < d\<close>) to the nearest integer, ties to the even
  neighbour. This is the rounding rule both of the integer-to-float64 conversion (IEEE 754
  round-to-nearest-even) and of \<^verbatim>\<open>strconv\<close>'s fixed-precision decimal output.
\<close>

definition round_half_even :: "int \<Rightarrow> int \<Rightarrow> int" where
  "round_half_even a d =
     (let q = a div d; r = a mod d
      in if d < 2 * r \<or> (2 * r = d \<and> odd q) then q + 1 else q)"

fun bit_length :: "nat \<Rightarrow> nat" where
  "bit_length n = (if n = 0 then 0 else Suc (bit_length (n div 2)))"

declare bit_length.simps [simp del]

text \<open>
  \<^verbatim>\<open>float64(k)\<close> for an integer \<open>k\<close>: a float64 has a 53-bit significand, so a
  magnitude below \<open>2^53\<close> converts exactly and a larger one is rounded to 53 significant bits.
  The result is an integer again, so the model keeps it as an \<open>int\<close>.
\<close>

definition float64_of_int :: "int \<Rightarrow> int" where
  "float64_of_int k =
     (if \<bar>k\<bar> < 2 ^ 53 then k
      else (let u = 2 ^ (bit_length (nat \<bar>k\<bar>) - 53)
            in sgn k * (round_half_even \<bar>k\<bar> u * u)))"

text \<open>
  \<^verbatim>\<open>fmt.Sprintf("%.1f", a / d)\<close> for a float64 \<open>a\<close> holding a non-negative integer and a
  float64 \<open>d\<close> holding a positive power of two: the float division is exact (it only changes
  the exponent), and \<^verbatim>\<open>%.1f\<close> prints the exact value rounded to one decimal, ties to even.
\<close>

definition fmt_1f :: "int \<Rightarrow> int \<Rightarrow> string" where
  "fmt_1f a d =
     (let t = round_half_even (10 * a) d
      in dec_nat (nat (t div 10)) @ ''.'' @ [digit_char (nat (t mod 10))])"

section \<open>formatBytes\<close>

datatype panic = IndexOutOfRange

text \<open>
  The loop \<^verbatim>\<open>for n := bytes / unit; n >= unit; n /= unit { div *= unit; exp++ }\<close>,
  returning the final \<^verbatim>\<open>div\<close> and \<^verbatim>\<open>exp\<close>.
\<close>

function fb_loop :: "int \<Rightarrow> int \<Rightarrow> nat \<Rightarrow> int \<times> nat" where
  "fb_loop n dv ex =
     (if 1024 \<le> n then fb_loop (n sdiv 1024) (wrap64 (dv * 1024)) (Suc ex) else (dv, ex))"
  by pat_completeness auto
termination
proof (relation "measure (\<lambda>(n, dv, ex). nat n)")
  show "wf (measure (\<lambda>(n, dv, ex). nat n))" by simp
next
  fix n dv :: int and ex :: nat
  assume "1024 \<le> n"
  then have "n sdiv 1024 = n div 1024"
    by (simp add: signed_divide_int_def sgn_if)
  moreover from \<open>1024 \<le> n\<close> have "n div 1024 < n" by simp
  ultimately show "((n sdiv 1024, wrap64 (dv * 1024), Suc ex), (n, dv, ex))
      \<in> measure (\<lambda>(n, dv, ex). nat n)"
    using \<open>1024 \<le> n\<close> by simp
qed

declare fb_loop.simps [simp del]

definition formatBytes :: "int64 \<Rightarrow> panic + string" where
  "formatBytes bytes =
     (let b = sint bytes in
      if b = 0 then Inr ''0 B''
      else if b < 1024 then Inr (fmt_d b @ '' B'')
      else (case fb_loop (b sdiv 1024) 1024 0 of
              (dv, ex) \<Rightarrow>
                if ex < length ''KMGTPE''
                then Inr (fmt_1f (float64_of_int b) dv @ '' '' @ [''KMGTPE'' ! ex] @ ''B'')
                else Inl IndexOutOfRange))"


text \<open>
  The count the specification speaks of: divide by 1024 repeatedly until the quotient is
  below 1024, counting the divisions.
\<close>

function spec_divisions :: "int \<Rightarrow> nat" where
  "spec_divisions q = (if q < 1024 then 0 else Suc (spec_divisions (q div 1024)))"
  by pat_completeness auto
termination
  by (relation "measure nat") auto

declare spec_divisions.simps [simp del]

text \<open>
  The result as the specification words it for a non-negative value: the value itself, not
  its float64 conversion, divided by \<open>1024^d\<close> and rendered with one decimal digit.
\<close>

definition spec_formatBytes :: "int \<Rightarrow> string" where
  "spec_formatBytes b =
     (if b = 0 then ''0 B''
      else if b < 1024 then fmt_d b @ '' B''
      else (let d = spec_divisions b
            in fmt_1f b (1024 ^ d) @ '' '' @ [''KMGTPE'' ! (d - 1)] @ ''B''))"

section \<open>Data model\<close>

text \<open>
  A Go slice is either \<^verbatim>\<open>nil\<close> (\<open>None\<close>) or a sequence (\<open>Some xs\<close>); the two differ
  when marshalled (\<^verbatim>\<open>null\<close> against \<^verbatim>\<open>[]\<close>). \<^verbatim>\<open>len\<close> and \<^verbatim>\<open>range\<close> treat \<^verbatim>\<open>nil\<close> as
  empty. A \<^verbatim>\<open>time.Time\<close> is only copied by the code and is kept as an opaque instant.
\<close>

type_synonym 'a slice = "'a list option"
type_synonym go_time = int

definition len :: "'a slice \<Rightarrow> nat" where
  "len s = (case s of None \<Rightarrow> 0 | Some xs \<Rightarrow> length xs)"

definition elems :: "'a slice \<Rightarrow> 'a list" where
  "elems s = (case s of None \<Rightarrow> [] | Some xs \<Rightarrow> xs)"

record AssetNode =
  an_ID :: string
  an_Name :: string
  an_Size :: int64
  an_DownloadURL :: string
  an_ContentType :: string

record ReleaseAssets =
  ra_TotalCount :: int
  ra_Nodes :: "AssetNode slice"

record ReleaseNode =
  rn_ID :: string
  rn_Name :: string
  rn_TagName :: string
  rn_PublishedAt :: go_time
  rn_IsPrerelease :: bool
  rn_IsDraft :: bool
  rn_URL :: string
  rn_Description :: string
  rn_ReleaseAssets :: ReleaseAssets

record Releases =
  rs_TotalCount :: int
  rs_Nodes :: "ReleaseNode slice"

record Repository =
  rp_Releases :: Releases

record GraphQLData =
  gd_Repository :: "Repository option"

record GraphQLError =
  ge_Message :: string

record GraphQLResponse =
  gr_Data :: "GraphQLData option"
  gr_Errors :: "GraphQLError slice"

record NormalizedAsset =
  na_ID :: string
  na_Name :: string
  na_Size :: int64
  na_SizeFormatted :: string
  na_ContentType :: string
  na_DownloadURL :: string

record NormalizedRelease =
  nr_ID :: string
  nr_Name :: string
  nr_Version :: string
  nr_PublishedAt :: go_time
  nr_IsPrerelease :: bool
  nr_IsDraft :: bool
  nr_URL :: string
  nr_Description :: string
  nr_DownloadCount :: int
  nr_Assets :: "NormalizedAsset slice"

record Metadata =
  md_FetchedAt :: string
  md_FetchedBy :: string
  md_Author :: string
  md_URL :: string

record RepoInfo =
  ri_Owner :: string
  ri_Repo :: string
  ri_URL :: string
  ri_TotalReleases :: int
  ri_FetchedReleases :: int

record OutputFile =
  of_Metadata :: Metadata
  of_Repository :: RepoInfo
  of_Releases :: "NormalizedRelease slice"

record Config =
  Owner :: string
  Repo :: string
  Count :: int
  Output :: string
  Token :: string
  Quiet :: bool
  Help :: bool
  Version :: bool

section \<open>normalizeData\<close>

text \<open>The zero values \<^verbatim>\<open>make\<close> fills a fresh slice with.\<close>

definition zero_asset :: NormalizedAsset where
  "zero_asset = \<lparr>na_ID = [], na_Name = [], na_Size = 0, na_SizeFormatted = [],
     na_ContentType = [], na_DownloadURL = []\<rparr>"

definition zero_release :: NormalizedRelease where
  "zero_release = \<lparr>nr_ID = [], nr_Name = [], nr_Version = [], nr_PublishedAt = 0,
     nr_IsPrerelease = False, nr_IsDraft = False, nr_URL = [], nr_Description = [],
     nr_DownloadCount = 0, nr_Assets = None\<rparr>"

text \<open>
  The body of the inner loop builds one \<^verbatim>\<open>NormalizedAsset\<close>; a panic of \<^verbatim>\<open>formatBytes\<close>
  would unwind the whole call.
\<close>

definition normalizeAsset :: "AssetNode \<Rightarrow> panic + NormalizedAsset" where
  "normalizeAsset asset =
     (case formatBytes (an_Size asset) of
        Inl p \<Rightarrow> Inl p
      | Inr s \<Rightarrow> Inr \<lparr>na_ID = an_ID asset, na_Name = an_Name asset, na_Size = an_Size asset,
                   na_SizeFormatted = s, na_ContentType = an_ContentType asset,
                   na_DownloadURL = an_DownloadURL asset\<rparr>)"

text \<open>
  \<^verbatim>\<open>for j, asset := range node.ReleaseAssets.Nodes { assets[j] = ... }\<close>: the remaining
  elements, the index \<open>j\<close> and the slice being filled. An index past the end would panic.
\<close>

fun assets_loop :: "AssetNode list \<Rightarrow> nat \<Rightarrow> NormalizedAsset list \<Rightarrow> panic + NormalizedAsset list" where
  "assets_loop [] j assets = Inr assets"
| "assets_loop (asset # rest) j assets =
     (case normalizeAsset asset of
        Inl p \<Rightarrow> Inl p
      | Inr a \<Rightarrow> if j < length assets then assets_loop rest (Suc j) (assets[j := a])
                 else Inl IndexOutOfRange)"

definition release_name :: "ReleaseNode \<Rightarrow> string" where
  "release_name node =
     (let name = rn_Name node;
          name = (if name = [] then rn_TagName node else name);
          name = (if name = [] then ''Unnamed Release'' else name)
      in name)"

definition normalizeRelease :: "ReleaseNode \<Rightarrow> panic + NormalizedRelease" where
  "normalizeRelease node =
     (let name = release_name node;
          nodes = ra_Nodes (rn_ReleaseAssets node)
      in case assets_loop (elems nodes) 0 (replicate (len nodes) zero_asset) of
           Inl p \<Rightarrow> Inl p
         | Inr assets \<Rightarrow>
             Inr \<lparr>nr_ID = rn_ID node, nr_Name = name, nr_Version = rn_TagName node,
                  nr_PublishedAt = rn_PublishedAt node, nr_IsPrerelease = rn_IsPrerelease node,
                  nr_IsDraft = rn_IsDraft node, nr_URL = rn_URL node,
                  nr_Description = rn_Description node,
                  nr_DownloadCount = ra_TotalCount (rn_ReleaseAssets node),
                  nr_Assets = Some assets\<rparr>)"

fun releases_loop :: "ReleaseNode list \<Rightarrow> nat \<Rightarrow> NormalizedRelease list \<Rightarrow> panic + NormalizedRelease list" where
  "releases_loop [] i releases = Inr releases"
| "releases_loop (node # rest) i releases =
     (case normalizeRelease node of
        Inl p \<Rightarrow> Inl p
      | Inr r \<Rightarrow> if i < length releases then releases_loop rest (Suc i) (releases[i := r])
                 else Inl IndexOutOfRange)"

definition normalizeData :: "ReleaseNode slice \<Rightarrow> panic + NormalizedRelease slice" where
  "normalizeData nodes =
     (case releases_loop (elems nodes) 0 (replicate (len nodes) zero_release) of
        Inl p \<Rightarrow> Inl p
      | Inr releases \<Rightarrow> Inr (Some releases))"


text \<open>
  The input of the repository's test \<^verbatim>\<open>TestNormalizeData\<close> (a named release with one asset of
  1024 bytes, and a release without a name and with a \<^verbatim>\<open>nil\<close> asset list), followed by a release
  with neither name nor tag whose reported asset total is 7.
\<close>

definition example_nodes :: "ReleaseNode slice" where
  "example_nodes = Some
     [\<lparr>rn_ID = ''1'', rn_Name = ''Release'', rn_TagName = ''v4.4.0'', rn_PublishedAt = 1735689600,
       rn_IsPrerelease = False, rn_IsDraft = False, rn_URL = [], rn_Description = [],
       rn_ReleaseAssets =
         \<lparr>ra_TotalCount = 0,
          ra_Nodes = Some [\<lparr>an_ID = ''asset1'', an_Name = ''asset1.zip'', an_Size = 1024,
                            an_DownloadURL = [], an_ContentType = []\<rparr>]\<rparr>\<rparr>,
      \<lparr>rn_ID = ''2'', rn_Name = [], rn_TagName = ''v4.4.1'', rn_PublishedAt = 0,
       rn_IsPrerelease = False, rn_IsDraft = False, rn_URL = [], rn_Description = [],
       rn_ReleaseAssets = \<lparr>ra_TotalCount = 0, ra_Nodes = None\<rparr>\<rparr>,
      \<lparr>rn_ID = ''3'', rn_Name = [], rn_TagName = [], rn_PublishedAt = 0,
       rn_IsPrerelease = False, rn_IsDraft = False, rn_URL = [], rn_Description = [],
       rn_ReleaseAssets = \<lparr>ra_TotalCount = 7, ra_Nodes = None\<rparr>\<rparr>]"

section \<open>parseArgs\<close>

text \<open>
  \<^verbatim>\<open>parseArgs\<close> registers twelve flags on the standard library's command-line flag set and
  calls \<^verbatim>\<open>flag.Parse()\<close>. The flag set is part of Go's standard library; its parsing
  procedure (\<^verbatim>\<open>FlagSet.parseOne\<close> and \<^verbatim>\<open>FlagSet.Parse\<close>) is embedded here as that
  library defines it. Registering a flag stores its default in the variable, so after the
  twelve registrations the \<^verbatim>\<open>Config\<close> holds the defaults and \<open>formal\<close> maps each
  flag name to the variable it sets.
\<close>

datatype flag_var = CountVar | OutputVar | TokenVar | QuietVar | HelpVar | VersionVar

definition formal :: "string \<Rightarrow> flag_var option" where
  "formal name =
     (if name = ''count'' \<or> name = ''c'' then Some CountVar
      else if name = ''output'' \<or> name = ''o'' then Some OutputVar
      else if name = ''token'' \<or> name = ''t'' then Some TokenVar
      else if name = ''quiet'' \<or> name = ''q'' then Some QuietVar
      else if name = ''help'' \<or> name = ''h'' then Some HelpVar
      else if name = ''version'' \<or> name = ''v'' then Some VersionVar
      else None)"

definition IsBoolFlag :: "flag_var \<Rightarrow> bool" where
  "IsBoolFlag fv = (fv = QuietVar \<or> fv = HelpVar \<or> fv = VersionVar)"

text \<open>\<^verbatim>\<open>strconv.ParseBool\<close>, which a boolean flag uses for \<^verbatim>\<open>-flag=value\<close>.\<close>

definition ParseBool :: "string \<Rightarrow> bool option" where
  "ParseBool str =
     (if str \<in> set [''1'', ''t'', ''T'', ''TRUE'', ''true'', ''True''] then Some True
      else if str \<in> set [''0'', ''f'', ''F'', ''FALSE'', ''false'', ''False''] then Some False
      else None)"

definition set_bool :: "flag_var \<Rightarrow> bool \<Rightarrow> Config \<Rightarrow> Config" where
  "set_bool fv b cfg =
     (case fv of
        QuietVar \<Rightarrow> cfg\<lparr>Quiet := b\<rparr>
      | HelpVar \<Rightarrow> cfg\<lparr>Help := b\<rparr>
      | VersionVar \<Rightarrow> cfg\<lparr>Version := b\<rparr>
      | _ \<Rightarrow> cfg)"

text \<open>
  Setting a flag that takes a value. The integer flag reads its value with
  \<^verbatim>\<open>strconv.ParseInt(s, 0, 64)\<close>; that library function is the parameter \<open>atoi\<close>
  (\<open>None\<close> when it reports an error).
\<close>

definition set_value :: "(string \<Rightarrow> int option) \<Rightarrow> flag_var \<Rightarrow> string \<Rightarrow> Config \<Rightarrow> Config option" where
  "set_value atoi fv v cfg =
     (case fv of
        CountVar \<Rightarrow> (case atoi v of None \<Rightarrow> None | Some n \<Rightarrow> Some (cfg\<lparr>Count := n\<rparr>))
      | OutputVar \<Rightarrow> Some (cfg\<lparr>Output := v\<rparr>)
      | TokenVar \<Rightarrow> Some (cfg\<lparr>Token := v\<rparr>)
      | _ \<Rightarrow> None)"

text \<open>
  Splitting \<^verbatim>\<open>name=value\<close> at the first \<^verbatim>\<open>=\<close> that is not the first character.
\<close>

definition split_value :: "string \<Rightarrow> string \<times> string option" where
  "split_value name =
     (case name of
        [] \<Rightarrow> ([], None)
      | c # cs \<Rightarrow>
          if CHR ''='' \<in> set cs
          then (c # takeWhile (\<lambda>x. x \<noteq> CHR ''='') cs,
                Some (tl (dropWhile (\<lambda>x. x \<noteq> CHR ''='') cs)))
          else (name, None))"

text \<open>
  One step of the flag parser on the remaining arguments: a flag was consumed (\<open>Seen\<close>), the
  flags are over (\<open>Done\<close>, with the arguments left), the argument is in error (\<open>Failed\<close>),
  or an undefined \<^verbatim>\<open>-h\<close>/\<^verbatim>\<open>-help\<close> was met (\<open>HelpRequested\<close>; it cannot happen here,
  both names being registered).
\<close>

datatype parse_step = Seen Config "string list" | Done "string list" | Failed | HelpRequested

definition parseOne :: "(string \<Rightarrow> int option) \<Rightarrow> Config \<Rightarrow> string list \<Rightarrow> parse_step" where
  "parseOne atoi cfg args =
     (case args of
        [] \<Rightarrow> Done []
      | s # rest \<Rightarrow>
          if length s < 2 \<or> s ! 0 \<noteq> CHR ''-'' then Done args
          else if s ! 1 = CHR ''-'' \<and> length s = 2 then Done rest
          else
            (let numMinuses = (if s ! 1 = CHR ''-'' then 2 else 1);
                 name = drop numMinuses s
             in if name = [] \<or> name ! 0 = CHR ''-'' \<or> name ! 0 = CHR ''='' then Failed
                else
                  (case split_value name of
                     (name, value) \<Rightarrow>
                       (case formal name of
                          None \<Rightarrow> if name = ''help'' \<or> name = ''h'' then HelpRequested else Failed
                        | Some fv \<Rightarrow>
                            if IsBoolFlag fv then
                              (case value of
                                 Some v \<Rightarrow>
                                   (case ParseBool v of
                                      None \<Rightarrow> Failed
                                    | Some b \<Rightarrow> Seen (set_bool fv b cfg) rest)
                               | None \<Rightarrow> Seen (set_bool fv True cfg) rest)
                            else
                              (case (case value of
                                       Some v \<Rightarrow> Some (v, rest)
                                     | None \<Rightarrow> (case rest of [] \<Rightarrow> None | v # rest' \<Rightarrow> Some (v, rest'))) of
                                 None \<Rightarrow> Failed
                               | Some (v, rest') \<Rightarrow>
                                   (case set_value atoi fv v cfg of
                                      None \<Rightarrow> Failed
                                    | Some cfg' \<Rightarrow> Seen cfg' rest'))))))"

text \<open>
  \<^verbatim>\<open>FlagSet.Parse\<close> under \<^verbatim>\<open>ExitOnError\<close>: parse flags until the first argument that is
  not one. An error exits the process with status 2 (status 0 for the help request); otherwise
  the configuration and the arguments left over (\<^verbatim>\<open>flag.Args()\<close>) are returned.
\<close>

function Parse :: "(string \<Rightarrow> int option) \<Rightarrow> Config \<Rightarrow> string list \<Rightarrow> nat + Config \<times> string list" where
  "Parse atoi cfg args =
     (case parseOne atoi cfg args of
        Seen cfg' args' \<Rightarrow> Parse atoi cfg' args'
      | Done args' \<Rightarrow> Inr (cfg, args')
      | Failed \<Rightarrow> Inl 2
      | HelpRequested \<Rightarrow> Inl 0)"
  by pat_completeness auto
termination
proof (relation "measure (\<lambda>(atoi, cfg, args). length args)")
  show "wf (measure (\<lambda>(atoi, cfg, args). length args))" by simp
next
  fix atoi :: "string \<Rightarrow> int option" and cfg cfg' :: Config and args args' :: "string list"
  assume "parseOne atoi cfg args = Seen cfg' args'"
  then have "length args' < length args"
    by (auto simp: parseOne_def Let_def
        split: list.splits if_splits prod.splits option.splits)
  then show "((atoi, cfg', args'), (atoi, cfg, args))
      \<in> measure (\<lambda>(atoi, cfg, args). length args)"
    by simp
qed

declare Parse.simps [simp del]

text \<open>\<^verbatim>\<open>os.Getenv\<close>: the value of the variable, empty when it is unset.\<close>

definition Getenv :: "(string \<rightharpoonup> string) \<Rightarrow> string \<Rightarrow> string" where
  "Getenv env key = (case env key of None \<Rightarrow> [] | Some v \<Rightarrow> v)"

text \<open>
  \<^verbatim>\<open>parseArgs\<close> on the environment \<open>env\<close> and the command line \<open>argv\<close> (the arguments after
  the program name). \<open>Inl\<close> is the exit status of a process that the flag parser ended.
\<close>

definition parseArgs :: "(string \<rightharpoonup> string) \<Rightarrow> (string \<Rightarrow> int option) \<Rightarrow> string list \<Rightarrow> nat + Config" where
  "parseArgs env atoi argv =
     (let cfg = \<lparr>Owner = [], Repo = [], Count = 10, Output = ''releases.json'',
                 Token = Getenv env ''GITHUB_TOKEN'', Quiet = False, Help = False,
                 Version = False\<rparr>
      in case Parse atoi cfg argv of
           Inl status \<Rightarrow> Inl status
         | Inr (cfg, args) \<Rightarrow>
             (let cfg = cfg\<lparr>Owner := ''Typeflu''\<rparr>;
                  cfg = cfg\<lparr>Repo := ''gale''\<rparr>;
                  cfg = (if 0 < length args then cfg\<lparr>Owner := args ! 0\<rparr> else cfg);
                  cfg = (if 1 < length args then cfg\<lparr>Repo := args ! 1\<rparr> else cfg)
              in Inr cfg))"


section \<open>fetchGraphQL, run and main\<close>

text \<open>
  What lies outside the program is a parameter of the model: the command line and the
  environment, the library's integer parser, the remote end, the JSON codec, the clock, path
  resolution and the file system call. The file system itself is state: a map from paths to
  contents, passed through \<^verbatim>\<open>run\<close>.
\<close>

type_synonym filesystem = "string \<rightharpoonup> string"

record Request =
  rq_owner :: string
  rq_repo :: string
  rq_first :: int
  rq_authorization :: "string option"

text \<open>
  How the request ends: marshalling the query fails, building the request fails, sending it
  fails, or a response arrives with its status code, the bytes of its body, and the error (if
  any) of closing the body.
\<close>

datatype http_outcome =
    MarshalError string
  | RequestError string
  | TransportError string
  | Response int string "string option"

record world =
  w_args :: "string list"
  w_env :: "string \<rightharpoonup> string"
  w_atoi :: "string \<Rightarrow> int option"
  w_http :: "Request \<Rightarrow> http_outcome"
  w_decode :: "string \<Rightarrow> string + GraphQLResponse"
  w_now :: string
  w_quote :: "string \<Rightarrow> string"
  w_abs :: "string \<Rightarrow> string + string"
  w_marshal :: "OutputFile \<Rightarrow> string + string"
  w_write :: "filesystem \<Rightarrow> string \<Rightarrow> string \<Rightarrow> string option \<times> filesystem"

text \<open>What the process does that can be observed, in order.\<close>

datatype event =
    FlagError
  | Banner
  | HelpText
  | VersionLine
  | WarnNoToken
  | SpinnerStart
  | SpinnerStop
  | HttpPost Request
  | CloseWarning string
  | InfoFound nat int
  | InfoLatest string go_time
  | FileWrite string string
  | SuccessLine nat string
  | PathLine string
  | ErrorLine string
  | PanicTrace

definition version :: string where
  "version = ''4.5.0''"

text \<open>
  The request \<^verbatim>\<open>fetchGraphQL\<close> builds from the query variables and the token: the
  \<^verbatim>\<open>Authorization\<close> header is set only for a non-empty token.
\<close>

definition build_request :: "string \<Rightarrow> string \<Rightarrow> int \<Rightarrow> string \<Rightarrow> Request" where
  "build_request owner repo first token =
     \<lparr>rq_owner = owner, rq_repo = repo, rq_first = first,
      rq_authorization = (if token \<noteq> [] then Some (''bearer '' @ token) else None)\<rparr>"

definition fetchGraphQL :: "world \<Rightarrow> string \<Rightarrow> string \<Rightarrow> int \<Rightarrow> string \<Rightarrow> event list \<times> (string + GraphQLResponse)" where
  "fetchGraphQL w owner repo first token =
     (let req = build_request owner repo first token
      in case w_http w req of
           MarshalError e \<Rightarrow> ([], Inl (''failed to marshal GraphQL query: '' @ e))
         | RequestError e \<Rightarrow> ([], Inl (''failed to create HTTP request: '' @ e))
         | TransportError e \<Rightarrow>
             ([HttpPost req], Inl (''failed to send request to GitHub API: '' @ e))
         | Response status body closeErr \<Rightarrow>
             (let closing = (case closeErr of None \<Rightarrow> [] | Some e \<Rightarrow> [CloseWarning e])
              in if 400 \<le> status
                 then (HttpPost req # closing,
                       Inl (''GitHub API responded with status '' @ fmt_d status @ '': '' @ body))
                 else (case w_decode w body of
                         Inl e \<Rightarrow>
                           (HttpPost req # closing,
                            Inl (''failed to decode GitHub API response: '' @ e))
                       | Inr result \<Rightarrow> (HttpPost req # closing, Inr result))))"

text \<open>
  How \<^verbatim>\<open>run\<close> ends: it returns (\<open>None\<close> for \<^verbatim>\<open>nil\<close>, otherwise the error's message), the
  flag parser has ended the process, or a panic unwinds it.
\<close>

datatype run_result = Returned "string option" | Exited nat | Panicked panic

text \<open>
  The loop \<^verbatim>\<open>for _, e := range result.Errors { errorMessages += "- " + e.Message + "\n" }\<close>.
\<close>

definition errorMessages :: "GraphQLError list \<Rightarrow> string" where
  "errorMessages es = foldl (\<lambda>acc e. acc @ ''- '' @ ge_Message e @ [CHR 0x0A]) [] es"

text \<open>
  The part of \<^verbatim>\<open>run\<close> after a successful fetch without query errors: normalisation,
  progress lines, assembling and writing the output file.
\<close>

definition save_releases :: "world \<Rightarrow> Config \<Rightarrow> Repository \<Rightarrow> filesystem \<Rightarrow> run_result \<times> event list \<times> filesystem" where
  "save_releases w cfg repoData fs =
     (case normalizeData (rs_Nodes (rp_Releases repoData)) of
        Inl p \<Rightarrow> (Panicked p, [], fs)
      | Inr releases \<Rightarrow>
          (let info =
                 (if \<not> Quiet cfg
                  then InfoFound (len releases) (rs_TotalCount (rp_Releases repoData)) #
                       (case elems releases of
                          [] \<Rightarrow> []
                        | latest # _ \<Rightarrow> [InfoLatest (nr_Version latest) (nr_PublishedAt latest)])
                  else []);
               output =
                 \<lparr>of_Metadata =
                    \<lparr>md_FetchedAt = w_now w, md_FetchedBy = ''gale v'' @ version,
                     md_Author = ''Saksham Singla (@Typeflu)'',
                     md_URL = ''https://github.com/Typeflu''\<rparr>,
                  of_Repository =
                    \<lparr>ri_Owner = Owner cfg, ri_Repo = Repo cfg,
                     ri_URL = ''https://github.com/'' @ Owner cfg @ ''/'' @ Repo cfg,
                     ri_TotalReleases = rs_TotalCount (rp_Releases repoData),
                     ri_FetchedReleases = int (len releases)\<rparr>,
                  of_Releases = releases\<rparr>
           in case w_abs w (Output cfg) of
                Inl e \<Rightarrow>
                  (Returned (Some (''could not resolve path '' @ w_quote w (Output cfg) @ '': '' @ e)),
                   info, fs)
              | Inr outPath \<Rightarrow>
                  (case w_marshal w output of
                     Inl e \<Rightarrow> (Returned (Some (''failed to marshal output JSON: '' @ e)), info, fs)
                   | Inr file \<Rightarrow>
                       (case w_write w fs outPath file of
                          (Some e, fs') \<Rightarrow>
                            (Returned (Some (''failed to write to file '' @ Output cfg @ '': '' @ e)),
                             info @ [FileWrite outPath file], fs')
                        | (None, fs') \<Rightarrow>
                            (Returned None,
                             info @ [FileWrite outPath file, SuccessLine (len releases) (Output cfg)] @
                               (if \<not> Quiet cfg then [PathLine outPath] else []),
                             fs')))))"

text \<open>
  \<^verbatim>\<open>run\<close>. The fetch runs in a goroutine whose result the main flow awaits on a
  one-slot channel before doing anything else, so the model runs it in sequence.
\<close>

definition run :: "world \<Rightarrow> filesystem \<Rightarrow> run_result \<times> event list \<times> filesystem" where
  "run w fs =
     (case parseArgs (w_env w) (w_atoi w) (w_args w) of
        Inl status \<Rightarrow> (Exited status, (if status = 2 then [FlagError] else []) @ [HelpText], fs)
      | Inr cfg \<Rightarrow>
          if Help cfg then (Returned None, [Banner, HelpText], fs)
          else if Version cfg then (Returned None, [VersionLine], fs)
          else
            (let before =
                   (if \<not> Quiet cfg then [Banner] else []) @
                   (if Token cfg = [] then [WarnNoToken] else []) @
                   (if \<not> Quiet cfg then [SpinnerStart] else [])
             in case fetchGraphQL w (Owner cfg) (Repo cfg) (Count cfg) (Token cfg) of
                  (fetching, resultData) \<Rightarrow>
                    (let evs = before @ fetching @ [SpinnerStop]
                     in case resultData of
                          Inl err \<Rightarrow> (Returned (Some err), evs, fs)
                        | Inr result \<Rightarrow>
                            if 0 < len (gr_Errors result)
                            then (Returned (Some (''GraphQL returned errors:'' @ [CHR 0x0A] @
                                                  errorMessages (elems (gr_Errors result)))),
                                  evs, fs)
                            else
                              (case gr_Data result of
                                 None \<Rightarrow>
                                   (Returned (Some ''repository not found or access denied''), evs, fs)
                               | Some d \<Rightarrow>
                                   (case gd_Repository d of
                                      None \<Rightarrow>
                                        (Returned (Some ''repository not found or access denied''),
                                         evs, fs)
                                    | Some repoData \<Rightarrow>
                                        (case save_releases w cfg repoData fs of
                                           (res, saving, fs') \<Rightarrow> (res, evs @ saving, fs')))))))"

text \<open>
  \<^verbatim>\<open>main\<close>: the exit status of the process, what it did, and the file system it leaves.
  A run that returns an error prints it and exits with status 1; a Go program that panics
  exits with status 2.
\<close>

definition main :: "world \<Rightarrow> filesystem \<Rightarrow> nat \<times> event list \<times> filesystem" where
  "main w fs =
     (case run w fs of
        (Returned None, evs, fs') \<Rightarrow> (0, evs, fs')
      | (Returned (Some err), evs, fs') \<Rightarrow> (1, evs @ [ErrorLine err], fs')
      | (Exited status, evs, fs') \<Rightarrow> (status, evs, fs')
      | (Panicked p, evs, fs') \<Rightarrow> (2, evs @ [PanicTrace], fs'))"


text \<open>
  A concrete world to run the model in: the given command line, no environment variable, an
  integer parser that knows the numeral 20, a remote end that always answers with the given
  outcome, a decoder that always yields the given result, and a file system call that stores
  the content under the path.
\<close>

definition example_world :: "string list \<Rightarrow> http_outcome \<Rightarrow> string + GraphQLResponse \<Rightarrow> world" where
  "example_world args outcome decoded =
     \<lparr>w_args = args, w_env = Map.empty,
      w_atoi = (\<lambda>s. if s = ''20'' then Some 20 else None),
      w_http = (\<lambda>req. outcome),
      w_decode = (\<lambda>body. decoded),
      w_now = ''2025-01-01T00:00:00Z'',
      w_quote = (\<lambda>s. [CHR 0x22] @ s @ [CHR 0x22]),
      w_abs = (\<lambda>p. Inr (''/work/'' @ p)),
      w_marshal = (\<lambda>out. Inr ''{}''),
      w_write = (\<lambda>fs p c. (None, fs(p \<mapsto> c)))\<rparr>"

section \<open>Properties of formatBytes\<close>

lemma sdiv_1024_nonneg: "0 \<le> n \<Longrightarrow> n sdiv 1024 = n div (1024::int)"
  by (simp add: signed_divide_int_def sgn_if)

lemma wrap64_id: "- (2 ^ 63) \<le> k \<Longrightarrow> k < 2 ^ 63 \<Longrightarrow> wrap64 k = k"
  by (simp add: wrap64_def)

lemma divisions_bound: "n < 1024 * 1024 ^ k \<Longrightarrow> spec_divisions n \<le> k"
proof (induction k arbitrary: n)
  case 0
  then show ?case by (simp add: spec_divisions.simps)
next
  case (Suc k)
  show ?case
  proof (cases "n < 1024")
    case True
    then show ?thesis by (simp add: spec_divisions.simps)
  next
    case False
    have "\<And>X::int. n < 1024 * (1024 * X) \<Longrightarrow> n div 1024 < 1024 * X"
      by arith
    with Suc.prems have "n div 1024 < 1024 * 1024 ^ k"
      by simp
    then have "spec_divisions (n div 1024) \<le> k" by (rule Suc.IH)
    with False show ?thesis by (simp add: spec_divisions.simps [of n])
  qed
qed

lemma pow_divisions_le: "1024 \<le> n \<Longrightarrow> 1024 ^ spec_divisions n \<le> n"
proof (induction n rule: spec_divisions.induct)
  case (1 q)
  show ?case
  proof (cases "q div 1024 < 1024")
    case True
    then have "spec_divisions (q div 1024) = 0" by (simp add: spec_divisions.simps)
    with 1 show ?thesis by (simp add: spec_divisions.simps [of q])
  next
    case False
    with 1 have "1024 ^ spec_divisions (q div 1024) \<le> q div 1024" by simp
    then have "1024 * 1024 ^ spec_divisions (q div 1024) \<le> 1024 * (q div 1024)" by simp
    also have "\<dots> \<le> q" by arith
    finally show ?thesis using 1 by (simp add: spec_divisions.simps [of q])
  qed
qed

lemma fb_loop_eq:
  "0 < dv \<Longrightarrow> dv * 1024 ^ spec_divisions n < 2 ^ 63 \<Longrightarrow>
   fb_loop n dv ex = (dv * 1024 ^ spec_divisions n, ex + spec_divisions n)"
proof (induction n dv ex rule: fb_loop.induct)
  case (1 n dv ex)
  show ?case
  proof (cases "1024 \<le> n")
    case False
    then show ?thesis by (simp add: fb_loop.simps [of n] spec_divisions.simps [of n])
  next
    case True
    then have d: "spec_divisions n = Suc (spec_divisions (n div 1024))"
      by (simp add: spec_divisions.simps [of n])
    have q: "n sdiv 1024 = n div 1024" using True by (simp add: sdiv_1024_nonneg)
    have "dv * 1024 \<le> dv * 1024 ^ spec_divisions n"
      using \<open>0 < dv\<close> by (simp add: d)
    with 1(3) have "dv * 1024 < 2 ^ 63" by linarith
    moreover from \<open>0 < dv\<close> have "- (2 ^ 63) \<le> dv * 1024" by simp
    ultimately have w: "wrap64 (dv * 1024) = dv * 1024"
      by (rule wrap64_id [rotated])
    have "fb_loop (n sdiv 1024) (wrap64 (dv * 1024)) (Suc ex) =
          (wrap64 (dv * 1024) * 1024 ^ spec_divisions (n sdiv 1024), Suc ex + spec_divisions (n sdiv 1024))"
      using True 1(2,3) by (intro 1(1)) (simp_all add: w q d mult.assoc)
    then show ?thesis
      using True by (simp add: fb_loop.simps [of n] w q d mult.assoc)
  qed
qed


lemma round_half_even_bound:
  assumes "0 < d"
  shows "2 * \<bar>a - round_half_even a d * d\<bar> \<le> d"
proof -
  define q where "q = a div d"
  define r where "r = a mod d"
  have a: "a = q * d + r" by (simp add: q_def r_def)
  have r: "0 \<le> r" "r < d" using assms by (simp_all add: r_def)
  show ?thesis
  proof (cases "d < 2 * r \<or> (2 * r = d \<and> odd q)")
    case True
    then have "round_half_even a d = q + 1"
      by (simp add: round_half_even_def Let_def q_def r_def)
    then have "a - round_half_even a d * d = r - d"
      by (simp add: a algebra_simps)
    with True r show ?thesis by auto
  next
    case False
    then have "round_half_even a d = q"
      by (simp add: round_half_even_def Let_def q_def r_def)
    then have "a - round_half_even a d * d = r"
      by (simp add: a)
    with False r show ?thesis by auto
  qed
qed

lemma round_half_even_nonneg: "0 \<le> a \<Longrightarrow> 0 < d \<Longrightarrow> 0 \<le> round_half_even a d"
  by (simp add: round_half_even_def Let_def pos_imp_zdiv_nonneg_iff)

lemma float64_of_int_exact: "\<bar>k\<bar> < 2 ^ 53 \<Longrightarrow> float64_of_int k = k"
  by (simp add: float64_of_int_def)

lemma float64_of_int_nonneg: "0 \<le> k \<Longrightarrow> 0 \<le> float64_of_int k"
  by (simp add: float64_of_int_def Let_def round_half_even_nonneg sgn_if)

lemma bit_length_le: "n < 2 ^ m \<Longrightarrow> bit_length n \<le> m"
proof (induction m arbitrary: n)
  case 0
  then show ?case by (simp add: bit_length.simps)
next
  case (Suc m)
  show ?case
  proof (cases "n = 0")
    case True
    then show ?thesis by (simp add: bit_length.simps)
  next
    case False
    from Suc.prems have "n div 2 < 2 ^ m" by simp
    then have "bit_length (n div 2) \<le> m" by (rule Suc.IH)
    with False show ?thesis by (simp add: bit_length.simps [of n])
  qed
qed

lemma float64_of_int_error:
  assumes "0 \<le> k" "k < 2 ^ 63"
  shows "\<bar>float64_of_int k - k\<bar> \<le> 512"
proof (cases "k < 2 ^ 53")
  case True
  with assms show ?thesis by (simp add: float64_of_int_def)
next
  case False
  define u :: int where "u = 2 ^ (bit_length (nat k) - 53)"
  define x where "x = round_half_even k u * u"
  have "nat k < 2 ^ 63" using assms by (simp add: nat_less_iff)
  then have "bit_length (nat k) \<le> 63" by (rule bit_length_le)
  then have "bit_length (nat k) - 53 \<le> 10" by simp
  then have "u \<le> 2 ^ 10" unfolding u_def by (intro power_increasing) simp_all
  then have u: "u \<le> 1024" by simp
  have "0 < u" by (simp add: u_def)
  then have b: "2 * \<bar>k - x\<bar> \<le> u" unfolding x_def by (rule round_half_even_bound)
  have f: "float64_of_int k = x"
    using False assms by (simp add: float64_of_int_def Let_def u_def x_def sgn_if)
  from u b have "\<bar>x - k\<bar> \<le> 512" by arith
  then show ?thesis by (simp only: f)
qed

lemma fmt_1f_shape:
  assumes "0 \<le> a" "0 < d"
  shows "\<exists>q r. r < 10 \<and> 2 * \<bar>10 * a - (10 * int q + int r) * d\<bar> \<le> d \<and>
           fmt_1f a d = dec_nat q @ ''.'' @ [digit_char r]"
proof -
  define t where "t = round_half_even (10 * a) d"
  have t0: "0 \<le> t" using assms by (simp add: t_def round_half_even_nonneg)
  have b: "2 * \<bar>10 * a - t * d\<bar> \<le> d"
    unfolding t_def by (rule round_half_even_bound [OF assms(2)])
  have t: "10 * int (nat (t div 10)) + int (nat (t mod 10)) = t"
    using t0 by (simp add: pos_imp_zdiv_nonneg_iff)
  have "nat (t mod 10) < 10" by simp
  moreover have "2 * \<bar>10 * a - (10 * int (nat (t div 10)) + int (nat (t mod 10))) * d\<bar> \<le> d"
    using b by (simp only: t)
  moreover have "fmt_1f a d = dec_nat (nat (t div 10)) @ ''.'' @ [digit_char (nat (t mod 10))]"
    by (simp add: fmt_1f_def Let_def t_def)
  ultimately show ?thesis by blast
qed

lemma formatBytes_large:
  assumes "1024 \<le> sint w"
  shows "spec_divisions (sint w) \<le> 6" "1 \<le> spec_divisions (sint w)"
    "formatBytes w = Inr (fmt_1f (float64_of_int (sint w)) (1024 ^ spec_divisions (sint w))
        @ '' '' @ [''KMGTPE'' ! (spec_divisions (sint w) - 1)] @ ''B'')"
    "fb_loop (sint w sdiv 1024) 1024 0 = (1024 ^ spec_divisions (sint w), spec_divisions (sint w) - 1)"
proof -
  define b where "b = sint w"
  have b: "1024 \<le> b" using assms by (simp add: b_def)
  have "b < 2 ^ 63" using sint_less [of w] by (simp add: b_def)
  then have "b < 1024 * 1024 ^ 6" by simp
  then show d6: "spec_divisions (sint w) \<le> 6"
    unfolding b_def [symmetric] by (rule divisions_bound)
  have d: "spec_divisions b = Suc (spec_divisions (b div 1024))"
    using b by (simp add: spec_divisions.simps [of b])
  then show d1: "1 \<le> spec_divisions (sint w)" by (simp add: b_def)
  have "(1024::int) ^ spec_divisions b \<le> b" using b by (rule pow_divisions_le)
  with \<open>b < 2 ^ 63\<close> have "1024 * (1024::int) ^ spec_divisions (b div 1024) < 2 ^ 63"
    by (simp add: d)
  then have "fb_loop (b div 1024) 1024 0 =
      (1024 * 1024 ^ spec_divisions (b div 1024), 0 + spec_divisions (b div 1024))"
    by (intro fb_loop_eq) simp_all
  then have l: "fb_loop (b sdiv 1024) 1024 0 = (1024 ^ spec_divisions b, spec_divisions b - 1)"
    using b by (simp add: sdiv_1024_nonneg d)
  then show "fb_loop (sint w sdiv 1024) 1024 0 = (1024 ^ spec_divisions (sint w), spec_divisions (sint w) - 1)"
    by (simp add: b_def)
  from d6 d1 have "spec_divisions b - 1 < 6" by (simp add: b_def)
  with b l show "formatBytes w = Inr (fmt_1f (float64_of_int (sint w)) (1024 ^ spec_divisions (sint w))
        @ '' '' @ [''KMGTPE'' ! (spec_divisions (sint w) - 1)] @ ''B'')"
    by (simp add: formatBytes_def Let_def b_def [symmetric])
qed

lemma formatBytes_1536: "formatBytes 1536 = Inr ''1.5 KB''"
  by code_simp

lemma formatBytes_GB: "formatBytes 1610612736 = Inr ''1.5 GB''"
  by code_simp

lemma bit_length_eq: "2 ^ m \<le> n \<Longrightarrow> n < 2 ^ Suc m \<Longrightarrow> bit_length n = Suc m"
proof (induction m arbitrary: n)
  case 0
  then have "n = Suc 0" by simp
  then show ?case by (simp add: bit_length.simps [of "Suc 0"] bit_length.simps [of 0])
next
  case (Suc m)
  from Suc.prems have "2 ^ m \<le> n div 2" "n div 2 < 2 ^ Suc m" by simp_all
  then have "bit_length (n div 2) = Suc m" by (rule Suc.IH)
  moreover from Suc.prems have "n \<noteq> 0" by auto
  ultimately show ?case by (simp add: bit_length.simps [of n])
qed

lemma sint_cex: "sint (9851624184872959 :: int64) = 9851624184872959"
  by simp

lemma spec_divisions_cex: "spec_divisions 9851624184872959 = 5"
  by (simp add: spec_divisions.simps)

lemma bit_length_cex: "bit_length 9851624184872959 = 54"
proof -
  have "bit_length 9851624184872959 = Suc 53"
    by (rule bit_length_eq) simp_all
  then show ?thesis by simp
qed

lemma float64_cex: "float64_of_int 9851624184872959 = 9851624184872960"
  by (simp add: float64_of_int_def bit_length_cex round_half_even_def Let_def)

lemma fmt_1f_cex_code: "fmt_1f 9851624184872960 (1024 ^ 5) = ''8.8''"
  by (simp add: fmt_1f_def round_half_even_def Let_def dec_nat.simps digit_char_def)

lemma fmt_1f_cex_spec: "fmt_1f 9851624184872959 (1024 ^ 5) = ''8.7''"
  by (simp add: fmt_1f_def round_half_even_def Let_def dec_nat.simps digit_char_def)

lemma formatBytes_cex: "formatBytes 9851624184872959 = Inr ''8.8 PB''"
proof -
  have "1024 \<le> sint (9851624184872959 :: int64)" by simp
  from formatBytes_large(3) [OF this] show ?thesis
    unfolding sint_cex spec_divisions_cex float64_cex fmt_1f_cex_code by simp
qed

lemma formatBytes_below_2_53:
  assumes "0 \<le> sint w" "sint w < 2 ^ 53"
  shows "formatBytes w = Inr (spec_formatBytes (sint w))"
proof (cases "1024 \<le> sint w")
  case True
  have "float64_of_int (sint w) = sint w"
    using assms by (intro float64_of_int_exact) simp
  with formatBytes_large(3) [OF True] True show ?thesis
    by (simp add: spec_formatBytes_def Let_def)
next
  case False
  then show ?thesis by (simp add: formatBytes_def spec_formatBytes_def Let_def)
qed

text \<open>
  Claim C4 as worded, with the value itself divided by \<open>1024^d\<close>, fails from \<open>2^53\<close> on.
  At 9851624184872959 five divisions are needed and the quotient lies strictly between 8.7
  and 8.75, so its rendering with one decimal digit is \<open>8.7 PB\<close>; the conversion to
  float64 rounds the value up to 9851624184872960, whose quotient is 8.75 exactly, and
  \<^verbatim>\<open>formatBytes\<close> returns \<open>8.8 PB\<close>.
\<close>

theorem formatBytes_exact_value_counterexample:
  "formatBytes 9851624184872959 = Inr ''8.8 PB'' \<and>
   spec_divisions (sint (9851624184872959 :: int64)) = 5 \<and>
   87 * 1024 ^ 5 < 10 * sint (9851624184872959 :: int64) \<and>
   2 * (10 * sint (9851624184872959 :: int64) - 87 * 1024 ^ 5) < 1024 ^ 5 \<and>
   spec_formatBytes (sint (9851624184872959 :: int64)) = ''8.7 PB'' \<and>
   formatBytes 9851624184872959 \<noteq> Inr (spec_formatBytes (sint (9851624184872959 :: int64)))"
proof -
  have s: "spec_formatBytes 9851624184872959 = ''8.7 PB''"
    unfolding spec_formatBytes_def Let_def spec_divisions_cex fmt_1f_cex_spec by simp
  show ?thesis
    unfolding sint_cex by (simp add: formatBytes_cex spec_divisions_cex s)
qed

text \<open>
  Claim C4, amended. For a non-negative input, \<^verbatim>\<open>formatBytes\<close> returns \<open>0 B\<close> for 0 and
  the integer followed by \<open>B\<close> below 1024. From 1024 on, with \<open>d\<close> the number of divisions by
  1024 that bring the value below 1024 (between 1 and 6), the result is a number with exactly
  one decimal digit, a space, the letter of \<open>KMGTPE\<close> at index \<open>d - 1\<close>, and \<open>B\<close>; the
  number printed is the tenth nearest to the float64 conversion of the input divided by
  \<open>1024^d\<close>. That conversion is the input itself below \<open>2^53\<close>, where the result is the one
  the specification words, and within 512 of the input otherwise. In particular 1536 gives
  \<open>1.5 KB\<close> and 1610612736 gives \<open>1.5 GB\<close>.
\<close>

theorem formatBytes_spec:
  assumes "0 \<le> sint w"
  shows "(sint w = 0 \<longrightarrow> formatBytes w = Inr ''0 B'') \<and>
         (sint w < 1024 \<longrightarrow> formatBytes w = Inr (dec_nat (nat (sint w)) @ '' B'')) \<and>
         (1024 \<le> sint w \<longrightarrow>
            (let d = spec_divisions (sint w); D = 1024 ^ d
             in 1 \<le> d \<and> d \<le> 6 \<and>
                (\<exists>q r. r < 10 \<and>
                   2 * \<bar>10 * float64_of_int (sint w) - (10 * int q + int r) * D\<bar> \<le> D \<and>
                   formatBytes w =
                     Inr (dec_nat q @ ''.'' @ [digit_char r] @ '' '' @ [''KMGTPE'' ! (d - 1)] @ ''B'')))) \<and>
         (sint w < 2 ^ 53 \<longrightarrow> float64_of_int (sint w) = sint w) \<and>
         (sint w < 2 ^ 53 \<longrightarrow> formatBytes w = Inr (spec_formatBytes (sint w))) \<and>
         \<bar>float64_of_int (sint w) - sint w\<bar> \<le> 512 \<and>
         formatBytes 1536 = Inr ''1.5 KB'' \<and> formatBytes 1610612736 = Inr ''1.5 GB''"
proof (intro conjI impI)
  assume "sint w = 0"
  then show "formatBytes w = Inr ''0 B''" by (simp add: formatBytes_def)
next
  assume "sint w < 1024"
  with assms show "formatBytes w = Inr (dec_nat (nat (sint w)) @ '' B'')"
    by (simp add: formatBytes_def Let_def fmt_d_def dec_nat.simps [of 0] digit_char_def)
next
  assume l: "1024 \<le> sint w"
  have "0 \<le> float64_of_int (sint w)" using assms by (rule float64_of_int_nonneg)
  moreover have "(0::int) < 1024 ^ spec_divisions (sint w)" by simp
  ultimately obtain q r where "r < 10"
    "2 * \<bar>10 * float64_of_int (sint w) - (10 * int q + int r) * 1024 ^ spec_divisions (sint w)\<bar>
       \<le> 1024 ^ spec_divisions (sint w)"
    "fmt_1f (float64_of_int (sint w)) (1024 ^ spec_divisions (sint w)) = dec_nat q @ ''.'' @ [digit_char r]"
    using fmt_1f_shape by blast
  with formatBytes_large [OF l]
  show "let d = spec_divisions (sint w); D = 1024 ^ d
             in 1 \<le> d \<and> d \<le> 6 \<and>
                (\<exists>q r. r < 10 \<and>
                   2 * \<bar>10 * float64_of_int (sint w) - (10 * int q + int r) * D\<bar> \<le> D \<and>
                   formatBytes w =
                     Inr (dec_nat q @ ''.'' @ [digit_char r] @ '' '' @ [''KMGTPE'' ! (d - 1)] @ ''B''))"
    unfolding Let_def by (intro conjI exI [of _ q] exI [of _ r]) simp_all
next
  assume "sint w < 2 ^ 53"
  with assms show "float64_of_int (sint w) = sint w"
    by (intro float64_of_int_exact) simp
next
  assume "sint w < 2 ^ 53"
  with assms show "formatBytes w = Inr (spec_formatBytes (sint w))"
    by (rule formatBytes_below_2_53)
next
  have "sint w < 2 ^ 63" using sint_less [of w] by simp
  with assms show "\<bar>float64_of_int (sint w) - sint w\<bar> \<le> 512"
    by (rule float64_of_int_error)
next
  show "formatBytes 1536 = Inr ''1.5 KB''" by (rule formatBytes_1536)
  show "formatBytes 1610612736 = Inr ''1.5 GB''" by (rule formatBytes_GB)
qed

theorem formatBytes_spec_witness:
  "0 \<le> sint (1536::int64) \<and> 1024 \<le> sint (1536::int64) \<and> sint (1536::int64) < 2 ^ 53 \<and>
   spec_divisions (sint (1536::int64)) = 1 \<and> float64_of_int (sint (1536::int64)) = 1536 \<and>
   formatBytes 1536 = Inr ''1.5 KB'' \<and> spec_formatBytes (sint (1536::int64)) = ''1.5 KB'' \<and>
   0 \<le> sint (500::int64) \<and> sint (500::int64) < 1024 \<and> formatBytes 500 = Inr ''500 B'' \<and>
   sint (0::int64) = 0 \<and> formatBytes 0 = Inr ''0 B''"
  using formatBytes_spec [of 1536] formatBytes_spec [of 500] formatBytes_spec [of 0]
  by (simp add: spec_divisions.simps dec_nat.simps digit_char_def)

text \<open>
  Claim C9. For every int64 input (so for every non-negative one) the unit-selection loop,
  a total function, ends with \<^verbatim>\<open>exp\<close> at most 5, that is after at most 6 divisions, and
  \<^verbatim>\<open>formatBytes\<close> returns a string: indexing \<open>KMGTPE\<close> never panics.
\<close>

theorem formatBytes_index_in_bounds:
  "snd (fb_loop (sint w sdiv 1024) 1024 0) \<le> 5 \<and> (\<exists>s. formatBytes w = Inr s)"
proof (cases "1024 \<le> sint w")
  case True
  from formatBytes_large [OF True] show ?thesis by simp
next
  case False
  have "sint w sdiv 1024 \<le> sint w div 1024 + 1"
    by (simp add: signed_divide_int_eq_divide_int)
  moreover have "sint w div 1024 < 1" using False by arith
  ultimately have "sint w sdiv 1024 < 1024" by arith
  then have "fb_loop (sint w sdiv 1024) 1024 0 = (1024, 0)"
    by (simp add: fb_loop.simps)
  with False show ?thesis by (simp add: formatBytes_def Let_def)
qed

theorem formatBytes_index_in_bounds_witness:
  "snd (fb_loop (sint (9223372036854775807::int64) sdiv 1024) 1024 0) \<le> 5 \<and>
   (\<exists>s. formatBytes (9223372036854775807::int64) = Inr s)"
  by (rule formatBytes_index_in_bounds)

section \<open>Properties of normalizeData\<close>

lemma formatBytes_total: "\<exists>s. formatBytes w = Inr s"
proof (cases "1024 \<le> sint w")
  case True
  from formatBytes_large(3) [OF True] show ?thesis by blast
next
  case False
  then show ?thesis by (simp add: formatBytes_def Let_def)
qed

lemma normalizeAsset_Inr: "normalizeAsset a = Inr (projr (normalizeAsset a))"
  using formatBytes_total [of "an_Size a"] by (auto simp: normalizeAsset_def)

lemma assets_loop_eq:
  "j + length xs \<le> length acc \<Longrightarrow>
   assets_loop xs j acc =
     Inr (take j acc @ map (\<lambda>a. projr (normalizeAsset a)) xs @ drop (j + length xs) acc)"
proof (induction xs arbitrary: j acc)
  case Nil
  then show ?case by simp
next
  case (Cons x xs)
  obtain a where n: "normalizeAsset x = Inr a"
    using normalizeAsset_Inr by blast
  from Cons.prems have j: "j < length acc" by simp
  from Cons.prems have "Suc j + length xs \<le> length (acc[j := a])" by simp
  then have "assets_loop xs (Suc j) (acc[j := a]) =
      Inr (take (Suc j) (acc[j := a]) @ map (\<lambda>a. projr (normalizeAsset a)) xs @
           drop (Suc j + length xs) (acc[j := a]))"
    by (rule Cons.IH)
  moreover have "take (Suc j) (acc[j := a]) = take j acc @ [a]"
    using j by (simp add: take_Suc_conv_app_nth)
  moreover have "drop (Suc j + length xs) (acc[j := a]) = drop (Suc j + length xs) acc"
    by simp
  ultimately show ?case using j n by simp
qed

lemma releases_loop_eq:
  "(\<And>x. x \<in> set xs \<Longrightarrow> normalizeRelease x = Inr (f x)) \<Longrightarrow> i + length xs \<le> length acc \<Longrightarrow>
   releases_loop xs i acc = Inr (take i acc @ map f xs @ drop (i + length xs) acc)"
proof (induction xs arbitrary: i acc)
  case Nil
  then show ?case by simp
next
  case (Cons x xs)
  have n: "normalizeRelease x = Inr (f x)" using Cons.prems(1) by simp
  from Cons.prems have i: "i < length acc" by simp
  from Cons.prems have "Suc i + length xs \<le> length (acc[i := f x])" by simp
  with Cons.prems(1) have "releases_loop xs (Suc i) (acc[i := f x]) =
      Inr (take (Suc i) (acc[i := f x]) @ map f xs @ drop (Suc i + length xs) (acc[i := f x]))"
    by (intro Cons.IH) simp_all
  moreover have "take (Suc i) (acc[i := f x]) = take i acc @ [f x]"
    using i by (simp add: take_Suc_conv_app_nth)
  moreover have "drop (Suc i + length xs) (acc[i := f x]) = drop (Suc i + length xs) acc"
    by simp
  ultimately show ?case using i n by simp
qed

lemma len_elems: "len s = length (elems s)"
  by (simp add: len_def elems_def split: option.splits)

lemma normalizeRelease_eq:
  "normalizeRelease node =
     Inr \<lparr>nr_ID = rn_ID node, nr_Name = release_name node, nr_Version = rn_TagName node,
          nr_PublishedAt = rn_PublishedAt node, nr_IsPrerelease = rn_IsPrerelease node,
          nr_IsDraft = rn_IsDraft node, nr_URL = rn_URL node,
          nr_Description = rn_Description node,
          nr_DownloadCount = ra_TotalCount (rn_ReleaseAssets node),
          nr_Assets = Some (map (\<lambda>a. projr (normalizeAsset a))
                              (elems (ra_Nodes (rn_ReleaseAssets node))))\<rparr>"
  by (simp add: normalizeRelease_def Let_def assets_loop_eq len_elems)

lemma normalizeData_eq:
  "normalizeData nodes = Inr (Some (map (\<lambda>n. projr (normalizeRelease n)) (elems nodes)))"
proof -
  have "releases_loop (elems nodes) 0 (replicate (len nodes) zero_release) =
        Inr (take 0 (replicate (len nodes) zero_release) @
             map (\<lambda>n. projr (normalizeRelease n)) (elems nodes) @
             drop (0 + length (elems nodes)) (replicate (len nodes) zero_release))"
    by (rule releases_loop_eq) (simp_all add: normalizeRelease_eq len_elems)
  then show ?thesis by (simp add: normalizeData_def len_elems)
qed

lemma len_example_nodes: "len example_nodes = Suc (Suc (Suc 0))"
  by (simp add: example_nodes_def len_def)

text \<open>
  Claim C1. For every input sequence \<^verbatim>\<open>normalizeData\<close> returns (it does not panic) a
  non-nil sequence of the same length, whose element at each position is the normalisation of
  the input node at that position, and whose every release has a non-nil asset sequence with
  one asset per input asset: nothing is filtered, and a release without assets gets an empty
  sequence, not \<^verbatim>\<open>nil\<close>.
\<close>

theorem normalizeData_length_order:
  "\<exists>releases. normalizeData nodes = Inr (Some releases) \<and>
     length releases = len nodes \<and>
     (\<forall>i<len nodes.
        normalizeRelease (elems nodes ! i) = Inr (releases ! i) \<and>
        nr_ID (releases ! i) = rn_ID (elems nodes ! i) \<and>
        (\<exists>assets. nr_Assets (releases ! i) = Some assets \<and>
           length assets = len (ra_Nodes (rn_ReleaseAssets (elems nodes ! i)))))"
  by (simp add: normalizeData_eq len_elems normalizeRelease_eq)

theorem normalizeData_length_order_witness:
  "0 < len example_nodes \<and> 1 < len example_nodes \<and>
   (\<exists>releases. normalizeData example_nodes = Inr (Some releases) \<and> length releases = 3 \<and>
      nr_ID (releases ! 0) = ''1'' \<and> nr_ID (releases ! 1) = ''2'' \<and>
      nr_Assets (releases ! 1) = Some [])"
  using normalizeData_length_order [of example_nodes]
  unfolding len_example_nodes All_less_Suc
  by (auto simp: example_nodes_def len_def elems_def)

text \<open>
  Claim C2. The name of every normalised release is non-empty: it is the raw name when that
  is non-empty, otherwise the tag name when that is non-empty, otherwise
  \<open>Unnamed Release\<close>.
\<close>

theorem normalizeData_name:
  "\<exists>releases. normalizeData nodes = Inr (Some releases) \<and>
     (\<forall>i<length releases.
        nr_Name (releases ! i) \<noteq> [] \<and>
        nr_Name (releases ! i) =
          (if rn_Name (elems nodes ! i) \<noteq> [] then rn_Name (elems nodes ! i)
           else if rn_TagName (elems nodes ! i) \<noteq> [] then rn_TagName (elems nodes ! i)
           else ''Unnamed Release''))"
  by (simp add: normalizeData_eq normalizeRelease_eq release_name_def Let_def)

theorem normalizeData_name_witness:
  "\<exists>releases. normalizeData example_nodes = Inr (Some releases) \<and> length releases = 3 \<and>
      nr_Name (releases ! 0) = ''Release'' \<and> nr_Name (releases ! 1) = ''v4.4.1'' \<and>
      nr_Name (releases ! 2) = ''Unnamed Release''"
proof -
  obtain releases where r: "normalizeData example_nodes = Inr (Some releases)"
    and n: "\<forall>i<length releases.
        nr_Name (releases ! i) \<noteq> [] \<and>
        nr_Name (releases ! i) =
          (if rn_Name (elems example_nodes ! i) \<noteq> [] then rn_Name (elems example_nodes ! i)
           else if rn_TagName (elems example_nodes ! i) \<noteq> [] then rn_TagName (elems example_nodes ! i)
           else ''Unnamed Release'')"
    using normalizeData_name [of example_nodes] by blast
  have l: "length releases = Suc (Suc (Suc 0))"
    using r by (simp add: normalizeData_eq example_nodes_def elems_def) auto
  from n have "nr_Name (releases ! 0) = ''Release'' \<and> nr_Name (releases ! 1) = ''v4.4.1'' \<and>
      nr_Name (releases ! 2) = ''Unnamed Release''"
    unfolding l All_less_Suc by (simp add: example_nodes_def elems_def numeral_2_eq_2)
  with r l show ?thesis by simp
qed

text \<open>
  Claim C3. The \<^verbatim>\<open>DownloadCount\<close> of every normalised release is the \<^verbatim>\<open>TotalCount\<close> field
  of the node's asset collection, whatever the number of assets returned.
\<close>

theorem normalizeData_downloadCount:
  "\<exists>releases. normalizeData nodes = Inr (Some releases) \<and>
     (\<forall>i<length releases.
        nr_DownloadCount (releases ! i) = ra_TotalCount (rn_ReleaseAssets (elems nodes ! i)))"
  by (simp add: normalizeData_eq normalizeRelease_eq)

theorem normalizeData_downloadCount_witness:
  "\<exists>releases. normalizeData example_nodes = Inr (Some releases) \<and> length releases = 3 \<and>
      nr_DownloadCount (releases ! 0) = 0 \<and> len (nr_Assets (releases ! 0)) = 1 \<and>
      nr_DownloadCount (releases ! 2) = 7 \<and> len (nr_Assets (releases ! 2)) = 0"
proof -
  obtain releases where r: "normalizeData example_nodes = Inr (Some releases)"
    and n: "\<forall>i<length releases.
        nr_DownloadCount (releases ! i) = ra_TotalCount (rn_ReleaseAssets (elems example_nodes ! i))"
    using normalizeData_downloadCount [of example_nodes] by blast
  have e: "releases = map (\<lambda>n. projr (normalizeRelease n)) (elems example_nodes)"
    using r by (simp add: normalizeData_eq)
  have l: "length releases = Suc (Suc (Suc 0))"
    by (simp add: e example_nodes_def elems_def)
  from n have "nr_DownloadCount (releases ! 0) = 0 \<and> nr_DownloadCount (releases ! 2) = 7"
    unfolding l All_less_Suc by (simp add: example_nodes_def elems_def numeral_2_eq_2)
  moreover have "len (nr_Assets (releases ! 0)) = 1 \<and> len (nr_Assets (releases ! 2)) = 0"
    by (simp add: e example_nodes_def elems_def normalizeRelease_eq len_def)
  ultimately show ?thesis using r l by simp
qed

section \<open>Properties of parseArgs\<close>

lemmas parse_eval = parseArgs_def Parse.simps parseOne_def split_value_def formal_def
  IsBoolFlag_def set_bool_def set_value_def ParseBool_def Let_def

text \<open>
  Claim C5. Without arguments \<^verbatim>\<open>parseArgs\<close> yields owner \<open>Typeflu\<close>, repo \<open>gale\<close>, count
  10, output \<open>releases.json\<close> and the value of \<^verbatim>\<open>GITHUB_TOKEN\<close> as token (empty when the
  variable is unset); the two positionals \<open>microsoft vscode\<close> set owner and repo and leave the
  rest at the defaults; and \<open>--count 20 -o out.json -q owner repo\<close> yields count 20, output
  \<open>out.json\<close>, quiet, owner \<open>owner\<close> and repo \<open>repo\<close>, given that the library's integer
  parser reads \<open>20\<close> as 20.
\<close>

theorem parseArgs_examples:
  "parseArgs env atoi [] =
     Inr \<lparr>Owner = ''Typeflu'', Repo = ''gale'', Count = 10, Output = ''releases.json'',
          Token = Getenv env ''GITHUB_TOKEN'', Quiet = False, Help = False, Version = False\<rparr> \<and>
   (env ''GITHUB_TOKEN'' = None \<longrightarrow> Getenv env ''GITHUB_TOKEN'' = []) \<and>
   (\<forall>v. env ''GITHUB_TOKEN'' = Some v \<longrightarrow> Getenv env ''GITHUB_TOKEN'' = v) \<and>
   parseArgs env atoi [''microsoft'', ''vscode''] =
     Inr \<lparr>Owner = ''microsoft'', Repo = ''vscode'', Count = 10, Output = ''releases.json'',
          Token = Getenv env ''GITHUB_TOKEN'', Quiet = False, Help = False, Version = False\<rparr> \<and>
   (atoi ''20'' = Some 20 \<longrightarrow>
    parseArgs env atoi [''--count'', ''20'', ''-o'', ''out.json'', ''-q'', ''owner'', ''repo''] =
      Inr \<lparr>Owner = ''owner'', Repo = ''repo'', Count = 20, Output = ''out.json'',
           Token = Getenv env ''GITHUB_TOKEN'', Quiet = True, Help = False, Version = False\<rparr>)"
proof (intro conjI impI allI)
  show "parseArgs env atoi [] =
     Inr \<lparr>Owner = ''Typeflu'', Repo = ''gale'', Count = 10, Output = ''releases.json'',
          Token = Getenv env ''GITHUB_TOKEN'', Quiet = False, Help = False, Version = False\<rparr>"
    by (simp add: parse_eval)
next
  assume "env ''GITHUB_TOKEN'' = None"
  then show "Getenv env ''GITHUB_TOKEN'' = []" by (simp add: Getenv_def)
next
  fix v assume "env ''GITHUB_TOKEN'' = Some v"
  then show "Getenv env ''GITHUB_TOKEN'' = v" by (simp add: Getenv_def)
next
  show "parseArgs env atoi [''microsoft'', ''vscode''] =
     Inr \<lparr>Owner = ''microsoft'', Repo = ''vscode'', Count = 10, Output = ''releases.json'',
          Token = Getenv env ''GITHUB_TOKEN'', Quiet = False, Help = False, Version = False\<rparr>"
    by (simp add: parse_eval)
next
  assume "atoi ''20'' = Some 20"
  then show "parseArgs env atoi [''--count'', ''20'', ''-o'', ''out.json'', ''-q'', ''owner'', ''repo''] =
      Inr \<lparr>Owner = ''owner'', Repo = ''repo'', Count = 20, Output = ''out.json'',
           Token = Getenv env ''GITHUB_TOKEN'', Quiet = True, Help = False, Version = False\<rparr>"
    by (simp add: parse_eval)
qed

theorem parseArgs_examples_witness:
  "Map.empty ''GITHUB_TOKEN'' = (None :: string option) \<and>
   (\<lambda>s. if s = ''20'' then Some (20::int) else None) ''20'' = Some 20 \<and>
   parseArgs Map.empty (\<lambda>s. if s = ''20'' then Some 20 else None) [] =
     Inr \<lparr>Owner = ''Typeflu'', Repo = ''gale'', Count = 10, Output = ''releases.json'',
          Token = [], Quiet = False, Help = False, Version = False\<rparr> \<and>
   parseArgs Map.empty (\<lambda>s. if s = ''20'' then Some 20 else None)
       [''--count'', ''20'', ''-o'', ''out.json'', ''-q'', ''owner'', ''repo''] =
     Inr \<lparr>Owner = ''owner'', Repo = ''repo'', Count = 20, Output = ''out.json'',
          Token = [], Quiet = True, Help = False, Version = False\<rparr> \<and>
   [''GITHUB_TOKEN'' \<mapsto> ''secret''] ''GITHUB_TOKEN'' = Some ''secret'' \<and>
   parseArgs [''GITHUB_TOKEN'' \<mapsto> ''secret''] (\<lambda>s. None) [''microsoft'', ''vscode''] =
     Inr \<lparr>Owner = ''microsoft'', Repo = ''vscode'', Count = 10, Output = ''releases.json'',
          Token = ''secret'', Quiet = False, Help = False, Version = False\<rparr>"
  using parseArgs_examples [of Map.empty "\<lambda>s. if s = ''20'' then Some 20 else None"]
    parseArgs_examples [of "[''GITHUB_TOKEN'' \<mapsto> ''secret'']" "\<lambda>s. None"]
  by simp

text \<open>
  Claim C6, at the command line \<open>cli gh --count 20\<close> that the program's help text gives as
  an example: the flag parser stops at the first positional, so \<open>--count\<close> and \<open>20\<close> stay
  among the positional arguments and the count keeps its default 10.
\<close>

theorem parseArgs_flag_after_positionals:
  "parseArgs env atoi [''cli'', ''gh'', ''--count'', ''20''] =
     Inr \<lparr>Owner = ''cli'', Repo = ''gh'', Count = 10, Output = ''releases.json'',
          Token = Getenv env ''GITHUB_TOKEN'', Quiet = False, Help = False, Version = False\<rparr>"
  by (simp add: parse_eval)

section \<open>Properties of run\<close>

lemma closing_no_FileWrite:
  "FileWrite p c \<notin> set (case closeErr of None \<Rightarrow> [] | Some e \<Rightarrow> [CloseWarning e])"
  by (simp split: option.splits)

lemma foldl_append_concat: "foldl (\<lambda>acc e. acc @ f e) a es = a @ concat (map f es)"
  by (induction es arbitrary: a) simp_all

lemma errorMessages_concat:
  "errorMessages es = concat (map (\<lambda>e. ''- '' @ ge_Message e @ [CHR 0x0A]) es)"
  unfolding errorMessages_def
  using foldl_append_concat [of "\<lambda>e. ''- '' @ ge_Message e @ [CHR 0x0A]" "[]" es]
  by simp

lemma concat_map_mem:
  "e \<in> set es \<Longrightarrow> \<exists>pre post. concat (map f es) = pre @ f e @ post"
proof (induction es)
  case Nil
  then show ?case by simp
next
  case (Cons x xs)
  show ?case
  proof (cases "e = x")
    case True
    have "concat (map f (x # xs)) = [] @ f e @ concat (map f xs)" using True by simp
    then show ?thesis by blast
  next
    case False
    with Cons obtain pre post where "concat (map f xs) = pre @ f e @ post" by auto
    then have "concat (map f (x # xs)) = (f x @ pre) @ f e @ post" by simp
    then show ?thesis by blast
  qed
qed

text \<open>
  Claim C10. When the parsed configuration has both \<^verbatim>\<open>Help\<close> and \<^verbatim>\<open>Version\<close> set,
  \<^verbatim>\<open>run\<close> prints the banner and the help text and returns \<^verbatim>\<open>nil\<close>: the process exits with
  status 0, having printed no version line, sent no request and written no file.
\<close>

theorem run_help_precedes_version:
  assumes "parseArgs (w_env w) (w_atoi w) (w_args w) = Inr cfg"
    and "Help cfg" and "Version cfg"
  shows "run w fs = (Returned None, [Banner, HelpText], fs) \<and>
         main w fs = (0, [Banner, HelpText], fs)"
  using assms by (simp add: run_def main_def)

theorem run_help_precedes_version_witness:
  "parseArgs Map.empty (\<lambda>s. if s = ''20'' then Some 20 else None) [''--help'', ''--version''] =
     Inr \<lparr>Owner = ''Typeflu'', Repo = ''gale'', Count = 10, Output = ''releases.json'',
          Token = [], Quiet = False, Help = True, Version = True\<rparr> \<and>
   run (example_world [''--help'', ''--version''] (TransportError []) (Inl [])) Map.empty =
     (Returned None, [Banner, HelpText], Map.empty) \<and>
   main (example_world [''--help'', ''--version''] (TransportError []) (Inl [])) Map.empty =
     (0, [Banner, HelpText], Map.empty)"
proof -
  let ?w = "example_world [''--help'', ''--version''] (TransportError []) (Inl [])"
  let ?cfg = "\<lparr>Owner = ''Typeflu'', Repo = ''gale'', Count = 10, Output = ''releases.json'',
          Token = [], Quiet = False, Help = True, Version = True\<rparr>"
  have p: "parseArgs Map.empty (\<lambda>s. if s = ''20'' then Some 20 else None) [''--help'', ''--version''] = Inr ?cfg"
    by (simp add: parse_eval Getenv_def)
  then have "parseArgs (w_env ?w) (w_atoi ?w) (w_args ?w) = Inr ?cfg"
    by (simp add: example_world_def)
  from run_help_precedes_version [OF this, of Map.empty] p show ?thesis by simp
qed

text \<open>
  Claim C7. When the remote answers the request with a status of 400 or more, \<^verbatim>\<open>run\<close>
  returns an error whose message carries the status code and the raw body, the file system is
  unchanged and no file write is attempted, and \<^verbatim>\<open>main\<close> prints the error and exits with
  status 1.
\<close>

theorem run_http_rejection:
  assumes "parseArgs (w_env w) (w_atoi w) (w_args w) = Inr cfg"
    and "\<not> Help cfg" and "\<not> Version cfg"
    and "w_http w (build_request (Owner cfg) (Repo cfg) (Count cfg) (Token cfg)) =
           Response status body closeErr"
    and "400 \<le> status"
  shows "\<exists>evs. run w fs =
            (Returned (Some (''GitHub API responded with status '' @ fmt_d status @ '': '' @ body)),
             evs, fs) \<and>
           (\<forall>p c. FileWrite p c \<notin> set evs) \<and>
           main w fs =
             (1, evs @ [ErrorLine (''GitHub API responded with status '' @ fmt_d status @ '': '' @ body)],
              fs)"
  using assms
  by (simp add: run_def main_def fetchGraphQL_def Let_def closing_no_FileWrite split: option.splits)

theorem run_http_rejection_witness:
  "parseArgs Map.empty (\<lambda>s. if s = ''20'' then Some 20 else None) [] =
     Inr \<lparr>Owner = ''Typeflu'', Repo = ''gale'', Count = 10, Output = ''releases.json'',
          Token = [], Quiet = False, Help = False, Version = False\<rparr> \<and>
   (400::int) \<le> 404 \<and>
   (\<exists>evs. run (example_world [] (Response 404 ''Not Found'' None) (Inl [])) Map.empty =
            (Returned (Some ''GitHub API responded with status 404: Not Found''), evs, Map.empty) \<and>
          (\<forall>p c. FileWrite p c \<notin> set evs) \<and>
          main (example_world [] (Response 404 ''Not Found'' None) (Inl [])) Map.empty =
            (1, evs @ [ErrorLine ''GitHub API responded with status 404: Not Found''], Map.empty))"
proof -
  let ?w = "example_world [] (Response 404 ''Not Found'' None) (Inl [])"
  let ?cfg = "\<lparr>Owner = ''Typeflu'', Repo = ''gale'', Count = 10, Output = ''releases.json'',
          Token = [], Quiet = False, Help = False, Version = False\<rparr>"
  have p: "parseArgs Map.empty (\<lambda>s. if s = ''20'' then Some 20 else None) [] = Inr ?cfg"
    by (simp add: parse_eval Getenv_def)
  then have p': "parseArgs (w_env ?w) (w_atoi ?w) (w_args ?w) = Inr ?cfg"
    by (simp add: example_world_def)
  have h: "w_http ?w (build_request (Owner ?cfg) (Repo ?cfg) (Count ?cfg) (Token ?cfg)) =
      Response 404 ''Not Found'' None"
    by (simp add: example_world_def)
  have d: "fmt_d 404 = ''404''"
    by (simp add: fmt_d_def dec_nat.simps digit_char_def)
  from run_http_rejection [OF p' _ _ h, of Map.empty] p d show ?thesis by simp
qed

text \<open>
  Claim C8. When the remote answers with a status below 400 (200 among them) and the decoded
  body has a non-empty error list, \<^verbatim>\<open>run\<close> returns the query-errors failure, whose message
  holds one line per error with that error's message; whatever the data of the response, no
  releases are reported and no file is written, the file system is unchanged, and \<^verbatim>\<open>main\<close>
  exits with status 1.
\<close>

theorem run_query_errors:
  assumes "parseArgs (w_env w) (w_atoi w) (w_args w) = Inr cfg"
    and "\<not> Help cfg" and "\<not> Version cfg"
    and "w_http w (build_request (Owner cfg) (Repo cfg) (Count cfg) (Token cfg)) =
           Response status body closeErr"
    and "status < 400"
    and "w_decode w body = Inr result"
    and "gr_Errors result = Some es" and "es \<noteq> []"
  shows "\<exists>evs msg. run w fs = (Returned (Some msg), evs, fs) \<and>
           msg = ''GraphQL returned errors:'' @ [CHR 0x0A] @
                 concat (map (\<lambda>e. ''- '' @ ge_Message e @ [CHR 0x0A]) es) \<and>
           (\<forall>e \<in> set es. \<exists>pre post. msg = pre @ ''- '' @ ge_Message e @ [CHR 0x0A] @ post) \<and>
           (\<forall>p c. FileWrite p c \<notin> set evs) \<and>
           (\<forall>n t. InfoFound n t \<notin> set evs) \<and>
           main w fs = (1, evs @ [ErrorLine msg], fs)"
proof -
  let ?f = "\<lambda>e. ''- '' @ ge_Message e @ [CHR 0x0A]"
  let ?msg = "''GraphQL returned errors:'' @ [CHR 0x0A] @ concat (map ?f es)"
  let ?closing = "case closeErr of None \<Rightarrow> [] | Some e \<Rightarrow> [CloseWarning e]"
  let ?evs = "(if \<not> Quiet cfg then [Banner] else []) @
              (if Token cfg = [] then [WarnNoToken] else []) @
              (if \<not> Quiet cfg then [SpinnerStart] else []) @
              (HttpPost (build_request (Owner cfg) (Repo cfg) (Count cfg) (Token cfg)) # ?closing) @
              [SpinnerStop]"
  have l: "0 < len (gr_Errors result)" "elems (gr_Errors result) = es"
    using assms(7,8) by (simp_all add: len_def elems_def)
  have f: "fetchGraphQL w (Owner cfg) (Repo cfg) (Count cfg) (Token cfg) =
      (HttpPost (build_request (Owner cfg) (Repo cfg) (Count cfg) (Token cfg)) # ?closing, Inr result)"
    using assms(4,5,6) by (simp add: fetchGraphQL_def Let_def)
  have r: "run w fs = (Returned (Some ?msg), ?evs, fs)"
    using assms(1,2,3) l
    by (simp add: run_def f Let_def errorMessages_concat)
  have m: "main w fs = (1, ?evs @ [ErrorLine ?msg], fs)"
    by (simp add: main_def r)
  have c: "\<forall>e \<in> set es. \<exists>pre post. ?msg = pre @ ''- '' @ ge_Message e @ [CHR 0x0A] @ post"
  proof
    fix e assume "e \<in> set es"
    then obtain pre post where "concat (map ?f es) = pre @ ?f e @ post"
      using concat_map_mem [of e es ?f] by blast
    then have "?msg = (''GraphQL returned errors:'' @ [CHR 0x0A] @ pre) @ ''- '' @ ge_Message e @ [CHR 0x0A] @ post"
      by simp
    then show "\<exists>pre post. ?msg = pre @ ''- '' @ ge_Message e @ [CHR 0x0A] @ post"
      by blast
  qed
  have w: "\<forall>p c. FileWrite p c \<notin> set ?evs" "\<forall>n t. InfoFound n t \<notin> set ?evs"
    by (simp_all split: option.splits)
  from r m c w show ?thesis by blast
qed

theorem run_query_errors_witness:
  "parseArgs Map.empty (\<lambda>s. if s = ''20'' then Some 20 else None) [] =
     Inr \<lparr>Owner = ''Typeflu'', Repo = ''gale'', Count = 10, Output = ''releases.json'',
          Token = [], Quiet = False, Help = False, Version = False\<rparr> \<and>
   (200::int) < 400 \<and>
   (\<exists>evs. run (example_world [] (Response 200 ''{}'' None)
                 (Inr \<lparr>gr_Data = None,
                       gr_Errors = Some [\<lparr>ge_Message = ''bad field''\<rparr>, \<lparr>ge_Message = ''rate limited''\<rparr>]\<rparr>))
              Map.empty =
            (Returned (Some (''GraphQL returned errors:'' @ [CHR 0x0A] @ ''- bad field'' @ [CHR 0x0A] @
                             ''- rate limited'' @ [CHR 0x0A])), evs, Map.empty) \<and>
          (\<forall>p c. FileWrite p c \<notin> set evs))"
proof -
  let ?r = "\<lparr>gr_Data = None,
             gr_Errors = Some [\<lparr>ge_Message = ''bad field''\<rparr>, \<lparr>ge_Message = ''rate limited''\<rparr>]\<rparr>"
  let ?w = "example_world [] (Response 200 ''{}'' None) (Inr ?r)"
  let ?cfg = "\<lparr>Owner = ''Typeflu'', Repo = ''gale'', Count = 10, Output = ''releases.json'',
          Token = [], Quiet = False, Help = False, Version = False\<rparr>"
  have p: "parseArgs Map.empty (\<lambda>s. if s = ''20'' then Some 20 else None) [] = Inr ?cfg"
    by (simp add: parse_eval Getenv_def)
  then have p': "parseArgs (w_env ?w) (w_atoi ?w) (w_args ?w) = Inr ?cfg"
    by (simp add: example_world_def)
  have h: "w_http ?w (build_request (Owner ?cfg) (Repo ?cfg) (Count ?cfg) (Token ?cfg)) =
      Response 200 ''{}'' None"
    by (simp add: example_world_def)
  have d: "w_decode ?w ''{}'' = Inr ?r"
    by (simp add: example_world_def)
  have e: "gr_Errors ?r = Some [\<lparr>ge_Message = ''bad field''\<rparr>, \<lparr>ge_Message = ''rate limited''\<rparr>]"
    by simp
  from run_query_errors [OF p' _ _ h _ d e, of Map.empty] p show ?thesis by auto
qed

end
